theory Spec2Isabelle
  imports Complex_Main "HOL-Library.Sublist" "HOL-Library.Char_ord"
    "HOL-Library.List_Lexorder" "HOL-Library.Product_Lexorder"
begin

section \<open>Strings as Python uses them\<close>

text \<open>
  Column and sheet names are Python strings. The source only ever lower-cases them
  (\<^verbatim>\<open>str.lower\<close>), strips surrounding whitespace (\<^verbatim>\<open>str.strip\<close>) and tests for a
  substring (\<^verbatim>\<open>"date" in name\<close>). Names are modelled as ASCII strings; the substring test
  is \<^const>\<open>sublist\<close> (a contiguous sublist).
\<close>

definition lower_char :: "char \<Rightarrow> char" where
  "lower_char c =
     (case map_of (zip ''ABCDEFGHIJKLMNOPQRSTUVWXYZ'' ''abcdefghijklmnopqrstuvwxyz'') c of
        Some d \<Rightarrow> d
      | None \<Rightarrow> c)"

definition lower :: "string \<Rightarrow> string" where
  "lower s = map lower_char s"

text \<open>The ASCII characters for which \<^verbatim>\<open>str.isspace\<close> holds: 0x09-0x0D, 0x1C-0x1F, 0x20.\<close>

definition isspace :: "char \<Rightarrow> bool" where
  "isspace c = ((of_char c :: nat) \<in> {9, 10, 11, 12, 13, 28, 29, 30, 31, 32})"

definition strip :: "string \<Rightarrow> string" where
  "strip s = rev (dropWhile isspace (rev (dropWhile isspace s)))"

definition contains :: "string \<Rightarrow> string \<Rightarrow> bool" where
  "contains sub s = sublist sub s"

section \<open>The time-of-day category\<close>

text \<open>
  \<^verbatim>\<open>get_time_period\<close> of \<^verbatim>\<open>powerbi_data_processor.py\<close>, lines 46-54: a chain of
  \<^verbatim>\<open>if/elif/else\<close> over chained comparisons.
\<close>

definition get_time_period :: "int \<Rightarrow> string" where
  "get_time_period hour =
     (if 5 \<le> hour \<and> hour < 12 then ''Morning''
      else if 12 \<le> hour \<and> hour < 17 then ''Afternoon''
      else if 17 \<le> hour \<and> hour < 21 then ''Evening''
      else ''Night'')"

section \<open>Tables as the loader and the preprocessor see them\<close>

text \<open>
  A pandas \<^verbatim>\<open>DataFrame\<close> is a list of named columns, in column order; names may repeat.
  A column carries its dtype: \<^verbatim>\<open>object\<close> (arbitrary Python values), a numeric dtype
  (\<open>None\<close> is NaN) or \<^verbatim>\<open>datetime64[ns]\<close> (nanoseconds since the epoch, \<open>None\<close> is NaT).
  Numbers are exact reals: rounding of floating point is not modelled.
  \<^verbatim>\<open>pd.DataFrame()\<close> is the table without columns.
\<close>

type_synonym timestamp = int

datatype obj = ONone | OStr string | ONum real | OTime timestamp

datatype column =
    ObjectCol "obj list"
  | NumericCol "real option list"
  | DatetimeCol "timestamp option list"

type_synonym table = "(string \<times> column) list"


datatype error =
    FileNotFoundError string
  | ReadExcelError
  | IndexError
  | KeyError string
  | AttributeError
  | TypeError

text \<open>
  \<^verbatim>\<open>df[col]\<close> is a \<^verbatim>\<open>Series\<close> when the name is unique and a \<^verbatim>\<open>DataFrame\<close> when the name
  is repeated; a frame has no \<^verbatim>\<open>dtype\<close> attribute and \<^verbatim>\<open>pd.to_numeric\<close> rejects it.
\<close>

datatype selection = Series column | Frame

definition getitem :: "table \<Rightarrow> string \<Rightarrow> error + selection" where
  "getitem df col =
     (case filter (\<lambda>(n, c). n = col) df of
        [] \<Rightarrow> Inl (KeyError col)
      | [(n, c)] \<Rightarrow> Inr (Series c)
      | _ \<Rightarrow> Inr Frame)"

definition setitem :: "table \<Rightarrow> string \<Rightarrow> column \<Rightarrow> table" where
  "setitem df col new = map (\<lambda>(n, c). if n = col then (n, new) else (n, c)) df"

text \<open>
  The two library conversions, with \<^verbatim>\<open>errors='coerce'\<close>, of the values of an object
  column are parameters: the formats pandas accepts are not part of this repository.
\<close>

record pandas =
  to_datetime_coerce :: "obj list \<Rightarrow> timestamp option list"
  to_numeric_coerce :: "obj list \<Rightarrow> real option list"

text \<open>
  \<^verbatim>\<open>pd.to_numeric\<close> returns a numeric column as it is, and views a datetime column as
  its 64-bit integers (NaT is the least of them).
\<close>

definition datetime_as_int :: "timestamp option \<Rightarrow> real option" where
  "datetime_as_int t = (case t of Some ns \<Rightarrow> Some (of_int ns) | None \<Rightarrow> Some (- (2 ^ 63)))"

definition to_numeric :: "pandas \<Rightarrow> column \<Rightarrow> column" where
  "to_numeric pd c =
     (case c of
        ObjectCol vs \<Rightarrow> NumericCol (to_numeric_coerce pd vs)
      | NumericCol xs \<Rightarrow> NumericCol xs
      | DatetimeCol ts \<Rightarrow> NumericCol (map datetime_as_int ts))"

section \<open>The preprocessor\<close>

text \<open>
  \<^verbatim>\<open>preprocess_data\<close> of \<^verbatim>\<open>retail_dashboard.py\<close>, lines 157-174. Each \<^verbatim>\<open>for col in df.columns\<close>
  loop is a recursion over the column names, threading the table.
\<close>

fun date_loop :: "pandas \<Rightarrow> string list \<Rightarrow> table \<Rightarrow> error + table" where
  "date_loop pd [] df = Inr df"
| "date_loop pd (col # cols) df =
     (if contains ''date'' (lower col) then
        (case getitem df col of
           Inl e \<Rightarrow> Inl e
         | Inr Frame \<Rightarrow> Inl AttributeError
         | Inr (Series (ObjectCol vs)) \<Rightarrow>
             date_loop pd cols (setitem df col (DatetimeCol (to_datetime_coerce pd vs)))
         | Inr (Series c) \<Rightarrow> date_loop pd cols df)
      else date_loop pd cols df)"

fun numeric_loop :: "pandas \<Rightarrow> string list \<Rightarrow> table \<Rightarrow> error + table" where
  "numeric_loop pd [] df = Inr df"
| "numeric_loop pd (col # cols) df =
     (if contains ''price'' (lower col) \<or> contains ''amount'' (lower col) then
        (case getitem df col of
           Inl e \<Rightarrow> Inl e
         | Inr Frame \<Rightarrow> Inl TypeError
         | Inr (Series c) \<Rightarrow> numeric_loop pd cols (setitem df col (to_numeric pd c)))
      else numeric_loop pd cols df)"

definition preprocess_data :: "pandas \<Rightarrow> table \<Rightarrow> error + table" where
  "preprocess_data pd df0 =
     (let df = map (\<lambda>(c, v). (strip c, v)) df0 in
      case date_loop pd (map fst df) df of
        Inl e \<Rightarrow> Inl e
      | Inr df' \<Rightarrow> numeric_loop pd (map fst df') df')"

section \<open>The loader\<close>










text \<open>
  What the two loops do to one column, for the statements below: the date loop parses
  an object column only (the guard \<^verbatim>\<open>df[col].dtype == 'object'\<close>), and a name is usable
  in \<^verbatim>\<open>df[col]\<close> as a column when it occurs once.
\<close>

definition parse_dates :: "pandas \<Rightarrow> column \<Rightarrow> column" where
  "parse_dates pd c =
     (case c of ObjectCol vs \<Rightarrow> DatetimeCol (to_datetime_coerce pd vs) | _ \<Rightarrow> c)"

definition unique_name :: "table \<Rightarrow> string \<Rightarrow> bool" where
  "unique_name df col = (length (filter (\<lambda>n. n = col) (map fst df)) = 1)"

section \<open>The tables of the processor\<close>

text \<open>
  \<^verbatim>\<open>powerbi_data_processor.py\<close> works on the two tables after \<^verbatim>\<open>load_data\<close> and
  \<^verbatim>\<open>preprocess_data\<close>. The columns it reads have fixed names and types, so a row is a
  record of their cells (\<open>None\<close> is NaN, NaT or a missing value) and a table is the list of
  the column names present together with its rows, in order. The cell of a column whose
  name is absent is never read: every access checks the name first, as the source's
  lookups raise \<^verbatim>\<open>KeyError\<close>. Prices are exact reals. Timestamps are without time zone.
\<close>

record purchase =
  purchase_date :: "timestamp option"
  purchase_price_w_discount :: "real option"
  customer_guid :: "string option"
  vendor_name :: "string option"
  product_name :: "string option"
  quantity :: "real option"
  unit_cost :: "real option"
  purchase_location :: "string option"

record checkin =
  checkin_date :: "timestamp option"
  customer_name :: "string option"

record 'r frame =
  columns :: "string list"
  rows :: "'r list"

text \<open>\<^verbatim>\<open>DataFrame.empty\<close>: some axis has length 0. \<^verbatim>\<open>pd.DataFrame()\<close> has neither columns nor rows.\<close>

definition empty :: "'r frame \<Rightarrow> bool" where
  "empty df = (columns df = [] \<or> rows df = [])"

definition DataFrame :: "'r frame" where
  "DataFrame = \<lparr>columns = [], rows = []\<rparr>"

text \<open>Assigning \<^verbatim>\<open>df[name] = ...\<close> overwrites a column of that name or appends a new one.\<close>

definition assign :: "string \<Rightarrow> string list \<Rightarrow> string list" where
  "assign name cols = (if name \<in> set cols then cols else cols @ [name])"

text \<open>The derived columns of the enhanced purchases table, next to the row they extend.\<close>

record enhanced =
  base :: purchase
  Hour :: "int option"
  DayOfWeek :: "string option"
  TimePeriod :: string
  Profit :: "real option"
  ProfitMargin :: "real option"
  CustomerTotalSpent :: "real option"
  CustomerRank :: "nat option"
  VendorTotalSales :: "real option"
  VendorTransactionCount :: "nat option"
  VendorAvgTransaction :: "real option"
  VendorTotalProfit :: "real option"
  VendorRank :: "nat option"
  LocationTotalSales :: "real option"
  LocationTransactionCount :: "nat option"
  LocationUniqueCustomers :: "nat option"
  LocationRank :: "nat option"
  ProductRank :: "nat option"

record enhanced_checkin =
  checkin_base :: checkin
  CheckinHour :: "int option"
  CheckinDayOfWeek :: "string option"
  CheckinTimePeriod :: "string option"
  TotalCheckins :: "nat option"
  CheckinFrequencyRank :: "nat option"

subsection \<open>The pandas operations the processor uses\<close>

fun dropna :: "'a option list \<Rightarrow> 'a list" where
  "dropna [] = []"
| "dropna (None # xs) = dropna xs"
| "dropna (Some x # xs) = x # dropna xs"

text \<open>\<^verbatim>\<open>sum\<close>, \<^verbatim>\<open>count\<close>, \<^verbatim>\<open>mean\<close> and \<^verbatim>\<open>nunique\<close> skip nulls; the mean of no value is NaN.\<close>

definition nansum :: "real option list \<Rightarrow> real" where
  "nansum xs = sum_list (dropna xs)"

definition count :: "'a option list \<Rightarrow> nat" where
  "count xs = length (dropna xs)"

definition nanmean :: "real option list \<Rightarrow> real option" where
  "nanmean xs = (if count xs = 0 then None else Some (nansum xs / real (count xs)))"

definition nunique :: "'a option list \<Rightarrow> nat" where
  "nunique xs = length (remdups (dropna xs))"

text \<open>
  \<^verbatim>\<open>groupby\<close> drops the rows whose key is null and lists the groups by ascending key.
\<close>

definition group_keys :: "('r \<Rightarrow> 'k::linorder option) \<Rightarrow> 'r list \<Rightarrow> 'k list" where
  "group_keys key rs = sort (remdups (dropna (map key rs)))"

definition group_rows :: "('r \<Rightarrow> 'k option) \<Rightarrow> 'r list \<Rightarrow> 'k \<Rightarrow> 'r list" where
  "group_rows key rs k = filter (\<lambda>r. key r = Some k) rs"

text \<open>
  \<^verbatim>\<open>rank(ascending=False, method='dense')\<close>: one more than the number of distinct
  greater values.
\<close>

definition dense_rank :: "'a::linorder list \<Rightarrow> 'a \<Rightarrow> nat" where
  "dense_rank vals v = Suc (length (remdups (filter (\<lambda>w. v < w) vals)))"

text \<open>
  \<^verbatim>\<open>left.merge(right, on=key, how='left')\<close>: every left row, in order, once for each right
  row with its key, in the right table's order, and once with nulls when there is none.
  The right tables here come from \<^verbatim>\<open>groupby\<close> and have no null key.
\<close>

definition merge_left :: "('l \<Rightarrow> 'k option) \<Rightarrow> ('m \<Rightarrow> 'k) \<Rightarrow> 'l list \<Rightarrow> 'm list \<Rightarrow> ('l \<times> 'm option) list" where
  "merge_left lkey rkey left right =
     concat (map (\<lambda>l. case filter (\<lambda>m. lkey l = Some (rkey m)) right of
                         [] \<Rightarrow> [(l, None)]
                       | ms \<Rightarrow> map (\<lambda>m. (l, Some m)) ms) left)"


text \<open>\<^verbatim>\<open>.dt.hour\<close> and \<^verbatim>\<open>.dt.day_name()\<close> of a timestamp in nanoseconds; 1970-01-01 was a Thursday.\<close>

definition dt_hour :: "timestamp \<Rightarrow> int" where
  "dt_hour ns = (ns div 3600000000000) mod 24"

definition dt_day_name :: "timestamp \<Rightarrow> string" where
  "dt_day_name ns =
     [''Monday'', ''Tuesday'', ''Wednesday'', ''Thursday'', ''Friday'', ''Saturday'', ''Sunday'']
       ! nat ((ns div 86400000000000 + 3) mod 7)"

text \<open>
  \<^verbatim>\<open>Series.apply(get_time_period)\<close>: the hour of NaT is NaN, every comparison with NaN is
  false, and the chain ends in its \<^verbatim>\<open>else\<close>.
\<close>

definition apply_get_time_period :: "int option \<Rightarrow> string" where
  "apply_get_time_period h = (case h of Some hour \<Rightarrow> get_time_period hour | None \<Rightarrow> ''Night'')"

text \<open>Arithmetic on cells: NaN in, NaN out.\<close>

definition nan_minus :: "real option \<Rightarrow> real option \<Rightarrow> real option" where
  "nan_minus a b = (case (a, b) of (Some x, Some y) \<Rightarrow> Some (x - y) | _ \<Rightarrow> None)"

definition nan_percent :: "real option \<Rightarrow> real option \<Rightarrow> real option" where
  "nan_percent a b = (case (a, b) of (Some x, Some y) \<Rightarrow> Some (x / y * 100) | _ \<Rightarrow> None)"

definition require :: "string list \<Rightarrow> string list \<Rightarrow> error + unit" where
  "require names cols =
     (case filter (\<lambda>n. n \<notin> set cols) names of [] \<Rightarrow> Inr () | n # _ \<Rightarrow> Inl (KeyError n))"

section \<open>The enricher\<close>

text \<open>
  \<^verbatim>\<open>create_enhanced_datasets\<close> of \<^verbatim>\<open>powerbi_data_processor.py\<close>, from line 33 on, on the
  tables it gets from \<^verbatim>\<open>load_data\<close> and \<^verbatim>\<open>preprocess_data\<close>. The calendar columns
  \<^verbatim>\<open>DayNum\<close>, \<^verbatim>\<open>Month\<close>, \<^verbatim>\<open>Year\<close>, \<^verbatim>\<open>YearMonth\<close> and \<^verbatim>\<open>Week\<close> are read by no later step: their
  names are recorded, their cells are not modelled. The input is taken not to carry a
  column named like one that a merge adds.
\<close>

abbreviation price :: "enhanced \<Rightarrow> real option" where
  "price r \<equiv> purchase_price_w_discount (base r)"

abbreviation customer :: "enhanced \<Rightarrow> string option" where
  "customer r \<equiv> customer_guid (base r)"

abbreviation vendor :: "enhanced \<Rightarrow> string option" where
  "vendor r \<equiv> vendor_name (base r)"

abbreviation location :: "enhanced \<Rightarrow> string option" where
  "location r \<equiv> purchase_location (base r)"

abbreviation product :: "enhanced \<Rightarrow> string option" where
  "product r \<equiv> product_name (base r)"

text \<open>Lines 37-56: the time columns.\<close>

definition time_columns :: "purchase \<Rightarrow> enhanced" where
  "time_columns r =
     \<lparr>base = r,
      Hour = map_option dt_hour (purchase_date r),
      DayOfWeek = map_option dt_day_name (purchase_date r),
      TimePeriod = apply_get_time_period (map_option dt_hour (purchase_date r)),
      Profit = None, ProfitMargin = None,
      CustomerTotalSpent = None, CustomerRank = None,
      VendorTotalSales = None, VendorTransactionCount = None, VendorAvgTransaction = None,
      VendorTotalProfit = None, VendorRank = None,
      LocationTotalSales = None, LocationTransactionCount = None,
      LocationUniqueCustomers = None, LocationRank = None,
      ProductRank = None\<rparr>"

text \<open>
  Lines 59-68: the financial columns. \<^verbatim>\<open>np.where(price > 0, Profit / price * 100, 0)\<close>
  takes the quotient where the comparison holds and 0 elsewhere, also where the price is NaN.
\<close>

definition financial :: "bool \<Rightarrow> enhanced \<Rightarrow> enhanced" where
  "financial has_unit_cost r =
     (if has_unit_cost then
        r\<lparr>Profit := nan_minus (price r) (unit_cost (base r)),
          ProfitMargin :=
            (case price r of
               Some p \<Rightarrow> if p > 0 then nan_percent (nan_minus (price r) (unit_cost (base r))) (price r)
                         else Some 0
             | None \<Rightarrow> Some 0)\<rparr>
      else r\<lparr>Profit := Some 0, ProfitMargin := Some 0\<rparr>)"

text \<open>Lines 71-75: the total and the dense rank of every customer, merged back.\<close>

record customer_total =
  ct_customer_guid :: string
  ct_CustomerTotalSpent :: real
  ct_CustomerRank :: nat

definition customer_totals_of :: "enhanced list \<Rightarrow> customer_total list" where
  "customer_totals_of rs =
     (let totals = map (\<lambda>k. (k, nansum (map price (group_rows customer rs k))))
                       (group_keys customer rs)
      in map (\<lambda>(k, t). \<lparr>ct_customer_guid = k, ct_CustomerTotalSpent = t,
                          ct_CustomerRank = dense_rank (map snd totals) t\<rparr>) totals)"

definition merge_customer :: "enhanced list \<Rightarrow> customer_total list \<Rightarrow> enhanced list" where
  "merge_customer rs customer_totals =
     map (\<lambda>(r, m). r\<lparr>CustomerTotalSpent := map_option ct_CustomerTotalSpent m,
                       CustomerRank := map_option ct_CustomerRank m\<rparr>)
         (merge_left customer ct_customer_guid rs customer_totals)"

text \<open>Lines 78-86: the vendor metrics.\<close>

record vendor_stat =
  vs_vendor_name :: string
  vs_VendorTotalSales :: real
  vs_VendorTransactionCount :: nat
  vs_VendorAvgTransaction :: "real option"
  vs_VendorTotalProfit :: real
  vs_VendorRank :: nat

definition vendor_stats_of :: "enhanced list \<Rightarrow> vendor_stat list" where
  "vendor_stats_of rs =
     (let stats = map (\<lambda>k. (k, group_rows vendor rs k)) (group_keys vendor rs);
          sales = map (\<lambda>(k, g). nansum (map price g)) stats
      in map (\<lambda>(k, g). \<lparr>vs_vendor_name = k,
                          vs_VendorTotalSales = nansum (map price g),
                          vs_VendorTransactionCount = count (map price g),
                          vs_VendorAvgTransaction = nanmean (map price g),
                          vs_VendorTotalProfit = nansum (map Profit g),
                          vs_VendorRank = dense_rank sales (nansum (map price g))\<rparr>) stats)"

definition merge_vendor :: "enhanced list \<Rightarrow> vendor_stat list \<Rightarrow> enhanced list" where
  "merge_vendor rs vendor_stats =
     map (\<lambda>(r, m). r\<lparr>VendorTotalSales := map_option vs_VendorTotalSales m,
                       VendorTransactionCount := map_option vs_VendorTransactionCount m,
                       VendorAvgTransaction := Option.bind m vs_VendorAvgTransaction,
                       VendorTotalProfit := map_option vs_VendorTotalProfit m,
                       VendorRank := map_option vs_VendorRank m\<rparr>)
         (merge_left vendor vs_vendor_name rs vendor_stats)"

text \<open>Lines 89-98: the location metrics, when there is a location column.\<close>

record location_stat =
  ls_purchase_location :: string
  ls_LocationTotalSales :: real
  ls_LocationTransactionCount :: nat
  ls_LocationUniqueCustomers :: nat
  ls_LocationRank :: nat

definition location_stats_of :: "enhanced list \<Rightarrow> location_stat list" where
  "location_stats_of rs =
     (let stats = map (\<lambda>k. (k, group_rows location rs k)) (group_keys location rs);
          sales = map (\<lambda>(k, g). nansum (map price g)) stats
      in map (\<lambda>(k, g). \<lparr>ls_purchase_location = k,
                          ls_LocationTotalSales = nansum (map price g),
                          ls_LocationTransactionCount = count (map price g),
                          ls_LocationUniqueCustomers = nunique (map customer g),
                          ls_LocationRank = dense_rank sales (nansum (map price g))\<rparr>) stats)"

definition merge_location :: "enhanced list \<Rightarrow> location_stat list \<Rightarrow> enhanced list" where
  "merge_location rs location_stats =
     map (\<lambda>(r, m). r\<lparr>LocationTotalSales := map_option ls_LocationTotalSales m,
                       LocationTransactionCount := map_option ls_LocationTransactionCount m,
                       LocationUniqueCustomers := map_option ls_LocationUniqueCustomers m,
                       LocationRank := map_option ls_LocationRank m\<rparr>)
         (merge_left location ls_purchase_location rs location_stats)"

text \<open>
  Lines 101-113: the product metrics are grouped by product and vendor, a row with a
  null in either being dropped; their rank is merged back by the product name alone.
\<close>

record product_stat =
  ps_product_name :: string
  ps_vendor_name :: string
  ps_ProductTotalSales :: real
  ps_ProductTransactionCount :: nat
  ps_ProductTotalQuantity :: real
  ps_ProductRank :: nat

definition product_vendor :: "enhanced \<Rightarrow> (string \<times> string) option" where
  "product_vendor r =
     (case (product r, vendor r) of (Some p, Some v) \<Rightarrow> Some (p, v) | _ \<Rightarrow> None)"

definition product_stats_of :: "enhanced list \<Rightarrow> product_stat list" where
  "product_stats_of rs =
     (let stats = map (\<lambda>k. (k, group_rows product_vendor rs k)) (group_keys product_vendor rs);
          sales = map (\<lambda>(k, g). nansum (map price g)) stats
      in map (\<lambda>((p, v), g). \<lparr>ps_product_name = p, ps_vendor_name = v,
                          ps_ProductTotalSales = nansum (map price g),
                          ps_ProductTransactionCount = count (map price g),
                          ps_ProductTotalQuantity = nansum (map (quantity \<circ> base) g),
                          ps_ProductRank = dense_rank sales (nansum (map price g))\<rparr>) stats)"

definition merge_product :: "enhanced list \<Rightarrow> product_stat list \<Rightarrow> enhanced list" where
  "merge_product rs product_stats =
     map (\<lambda>(r, m). r\<lparr>ProductRank := map_option ps_ProductRank m\<rparr>)
         (merge_left product ps_product_name rs product_stats)"

text \<open>
  The purchases half of \<^verbatim>\<open>create_enhanced_datasets\<close>. The lookups raise \<^verbatim>\<open>KeyError\<close> for the
  first name that is absent, in the order of the source: \<^verbatim>\<open>purchase_date\<close> (line 37), the
  price when there is a unit cost (line 60), then the keys and values of the group-bys.
\<close>

definition enhance_purchases ::
  "purchase frame \<Rightarrow> error + (enhanced frame \<times> vendor_stat list \<times> customer_total list)" where
  "enhance_purchases df =
     (let has_unit_cost = (''unit_cost'' \<in> set (columns df));
          has_location = (''purchase_location'' \<in> set (columns df))
      in case require ([''purchase_date'']
                       @ (if has_unit_cost then [''purchase_price_w_discount''] else [])
                       @ [''customer_guid'', ''purchase_price_w_discount'', ''vendor_name'',
                          ''product_name'', ''quantity''])
                      (columns df) of
           Inl e \<Rightarrow> Inl e
         | Inr _ \<Rightarrow>
             (let r1 = map time_columns (rows df);
                  r2 = map (financial has_unit_cost) r1;
                  customer_totals = customer_totals_of r2;
                  r3 = merge_customer r2 customer_totals;
                  vendor_stats = vendor_stats_of r3;
                  r4 = merge_vendor r3 vendor_stats;
                  r5 = (if has_location then merge_location r4 (location_stats_of r4) else r4);
                  r6 = merge_product r5 (product_stats_of r5);
                  cols = foldl (\<lambda>cs n. assign n cs) (columns df)
                           [''Hour'', ''DayOfWeek'', ''DayNum'', ''Month'', ''Year'', ''YearMonth'',
                            ''Week'', ''TimePeriod'', ''Profit'', ''ProfitMargin'']
                         @ [''CustomerTotalSpent'', ''CustomerRank'']
                         @ [''VendorTotalSales'', ''VendorTransactionCount'',
                            ''VendorAvgTransaction'', ''VendorTotalProfit'', ''VendorRank'']
                         @ (if has_location
                            then [''LocationTotalSales'', ''LocationTransactionCount'',
                                  ''LocationUniqueCustomers'', ''LocationRank'']
                            else [])
                         @ [''ProductRank'']
              in Inr (\<lparr>columns = cols, rows = r6\<rparr>, vendor_stats, customer_totals)))"

text \<open>
  Lines 117-138: the check-ins half. The time columns are added only when there is a
  \<^verbatim>\<open>checkin_date\<close> column; \<^verbatim>\<open>groupby('customer_name').size()\<close> counts the rows of a group.
\<close>

definition checkin_time_columns :: "bool \<Rightarrow> checkin \<Rightarrow> enhanced_checkin" where
  "checkin_time_columns has_date r =
     \<lparr>checkin_base = r,
      CheckinHour = (if has_date then map_option dt_hour (checkin_date r) else None),
      CheckinDayOfWeek = (if has_date then map_option dt_day_name (checkin_date r) else None),
      CheckinTimePeriod =
        (if has_date then Some (apply_get_time_period (map_option dt_hour (checkin_date r)))
         else None),
      TotalCheckins = None, CheckinFrequencyRank = None\<rparr>"

definition checkin_frequency_of :: "enhanced_checkin list \<Rightarrow> (string \<times> nat \<times> nat) list" where
  "checkin_frequency_of rs =
     (let sizes = map (\<lambda>k. (k, length (group_rows (customer_name \<circ> checkin_base) rs k)))
                      (group_keys (customer_name \<circ> checkin_base) rs)
      in map (\<lambda>(k, n). (k, n, dense_rank (map snd sizes) n)) sizes)"

definition enhance_checkins :: "checkin frame \<Rightarrow> error + enhanced_checkin frame" where
  "enhance_checkins checkins_df =
     (if \<not> empty checkins_df then
        (let has_date = (''checkin_date'' \<in> set (columns checkins_df));
             r1 = map (checkin_time_columns has_date) (rows checkins_df)
         in case require [''customer_name''] (columns checkins_df) of
              Inl e \<Rightarrow> Inl e
            | Inr _ \<Rightarrow>
                (let r2 = map (\<lambda>(r, m). r\<lparr>TotalCheckins := map_option (fst \<circ> snd) m,
                                           CheckinFrequencyRank := map_option (snd \<circ> snd) m\<rparr>)
                              (merge_left (customer_name \<circ> checkin_base) fst r1
                                 (checkin_frequency_of r1));
                     cols = (if has_date
                             then foldl (\<lambda>cs n. assign n cs) (columns checkins_df)
                                    [''CheckinHour'', ''CheckinDayOfWeek'', ''CheckinMonth'',
                                     ''CheckinYear'', ''CheckinTimePeriod'']
                             else columns checkins_df)
                            @ [''TotalCheckins'', ''CheckinFrequencyRank'']
                 in Inr \<lparr>columns = cols, rows = r2\<rparr>))
      else Inr DataFrame)"

definition create_enhanced_datasets ::
  "purchase frame \<Rightarrow> checkin frame \<Rightarrow>
   error + (enhanced frame \<times> enhanced_checkin frame \<times> vendor_stat list \<times> customer_total list)" where
  "create_enhanced_datasets df checkins_df =
     (case enhance_purchases df of
        Inl e \<Rightarrow> Inl e
      | Inr (purchases_enhanced, vendor_stats, customer_totals) \<Rightarrow>
          (case enhance_checkins checkins_df of
             Inl e \<Rightarrow> Inl e
           | Inr checkins_enhanced \<Rightarrow>
               Inr (purchases_enhanced, checkins_enhanced, vendor_stats, customer_totals)))"

text \<open>
  For the statements about the number of rows: the distinct vendors under which a product
  name occurs, and the number of rows that the merge of the product ranks makes of a row.
\<close>

definition product_vendors :: "purchase list \<Rightarrow> string \<Rightarrow> string list" where
  "product_vendors rs p =
     remdups (dropna (map vendor_name (filter (\<lambda>r. product_name r = Some p) rs)))"

definition copies :: "purchase list \<Rightarrow> purchase \<Rightarrow> nat" where
  "copies rs r =
     (case product_name r of None \<Rightarrow> 1 | Some p \<Rightarrow> max 1 (length (product_vendors rs p)))"

text \<open>The cells of an enhanced row that no merge writes.\<close>

abbreviation core :: "enhanced \<Rightarrow> purchase \<times> int option \<times> string option \<times> string \<times> real option \<times> real option" where
  "core r \<equiv> (base r, Hour r, DayOfWeek r, TimePeriod r, Profit r, ProfitMargin r)"

section \<open>The aggregator\<close>











section \<open>The exporter\<close>






section \<open>Example tables\<close>

text \<open>
  Three purchases on 1970-01-01, two at 08:00 from vendor A and one at 14:00 from vendor
  B, in a table without and in a table with a unit-cost column.
\<close>

definition three_rows :: "purchase list" where
  "three_rows =
     [\<lparr>purchase_date = Some 28800000000000, purchase_price_w_discount = Some 10,
       customer_guid = Some ''c1'', vendor_name = Some ''vendorA'', product_name = Some ''bar'',
       quantity = Some 1, unit_cost = Some 4, purchase_location = None\<rparr>,
      \<lparr>purchase_date = Some 28800000000000, purchase_price_w_discount = Some 20,
       customer_guid = Some ''c2'', vendor_name = Some ''vendorA'', product_name = Some ''chalk'',
       quantity = Some 2, unit_cost = Some 8, purchase_location = None\<rparr>,
      \<lparr>purchase_date = Some 50400000000000, purchase_price_w_discount = Some 30,
       customer_guid = Some ''c1'', vendor_name = Some ''vendorB'', product_name = Some ''tape'',
       quantity = Some 1, unit_cost = Some 30, purchase_location = None\<rparr>]"

definition base_columns :: "string list" where
  "base_columns = [''purchase_date'', ''customer_guid'', ''vendor_name'', ''product_name'',
                   ''quantity'', ''purchase_price_w_discount'']"

definition purchases_without_cost :: "purchase frame" where
  "purchases_without_cost = \<lparr>columns = base_columns, rows = three_rows\<rparr>"

definition purchases_with_cost :: "purchase frame" where
  "purchases_with_cost = \<lparr>columns = base_columns @ [''unit_cost''], rows = three_rows\<rparr>"

text \<open>The same product name sold by two vendors.\<close>

definition purchases_shared_product :: "purchase frame" where
  "purchases_shared_product =
     \<lparr>columns = base_columns,
      rows = [\<lparr>purchase_date = Some 28800000000000, purchase_price_w_discount = Some 10,
               customer_guid = Some ''c1'', vendor_name = Some ''vendorA'',
               product_name = Some ''bar'', quantity = Some 1, unit_cost = None,
               purchase_location = None\<rparr>,
              \<lparr>purchase_date = Some 50400000000000, purchase_price_w_discount = Some 30,
               customer_guid = Some ''c2'', vendor_name = Some ''vendorB'',
               product_name = Some ''bar'', quantity = Some 1, unit_cost = None,
               purchase_location = None\<rparr>]\<rparr>"


section \<open>Properties\<close>

text \<open>
  C2. For every integer hour the category returned by \<^const>\<open>get_time_period\<close> is one of
  Morning, Afternoon, Evening, Night: hours in [5,12) give Morning, [12,17) Afternoon,
  [17,21) Evening and every other hour Night; the boundary hours 5, 12, 17, 21 and 0 give
  Morning, Afternoon, Evening, Night and Night.
\<close>

theorem get_time_period_total:
  "get_time_period h \<in> {''Morning'', ''Afternoon'', ''Evening'', ''Night''}
   \<and> (get_time_period h = ''Morning'') = (5 \<le> h \<and> h < 12)
   \<and> (get_time_period h = ''Afternoon'') = (12 \<le> h \<and> h < 17)
   \<and> (get_time_period h = ''Evening'') = (17 \<le> h \<and> h < 21)
   \<and> (get_time_period h = ''Night'') = (h < 5 \<or> 21 \<le> h)
   \<and> get_time_period 5 = ''Morning'' \<and> get_time_period 12 = ''Afternoon''
   \<and> get_time_period 17 = ''Evening'' \<and> get_time_period 21 = ''Night''
   \<and> get_time_period 0 = ''Night''"
  by (auto simp add: get_time_period_def)

subsection \<open>The preprocessor\<close>

lemma strip_idem: "strip (strip s) = strip s"
  by (smt (verit, ccfv_threshold) append_eq_append_conv2 append_eq_rev_conv
    append_self_conv2 dropWhile_eq_Nil_conv dropWhile_eq_self_iff
    dropWhile_last hd_dropWhile hd_rev rev.simps(1) strip_def)

lemma setitem_names: "map fst (setitem df col c) = map fst df"
  by (induction df) (auto simp: setitem_def)

lemma filter_names: "map fst (filter (\<lambda>(n, c). n = col) df) = filter (\<lambda>n. n = col) (map fst df)"
  by (induction df) auto

lemma getitem_Series_unique: "getitem df col = Inr (Series c) \<Longrightarrow> unique_name df col"
  unfolding getitem_def unique_name_def filter_names[symmetric]
  by (auto split: list.splits prod.splits)

lemma getitem_Series_all:
  assumes "getitem df col = Inr (Series c)" "(n, c') \<in> set df" "n = col"
  shows "c' = c"
proof -
  from assms(1) have "filter (\<lambda>(n, c). n = col) df = [(col, c)]"
    by (auto simp: getitem_def split: list.splits prod.splits dest: filter_eq_ConsD)
  moreover from assms(2,3) have "(n, c') \<in> set (filter (\<lambda>(n, c). n = col) df)" by simp
  ultimately show ?thesis by simp
qed

lemma unique_getitem: "unique_name df col \<Longrightarrow> \<exists>c. getitem df col = Inr (Series c)"
  unfolding getitem_def unique_name_def filter_names[symmetric]
  by (cases "filter (\<lambda>(n, c). n = col) df") (auto split: list.splits)

lemma setitem_as_map:
  assumes "getitem df col = Inr (Series c)"
  shows "setitem df col (f c) = map (\<lambda>(n, c'). if n = col then (n, f c') else (n, c')) df"
  unfolding setitem_def using getitem_Series_all[OF assms]
  by (auto intro!: map_cong)

lemma setitem_same:
  assumes "getitem df col = Inr (Series c)"
  shows "setitem df col c = df"
  unfolding setitem_def using getitem_Series_all[OF assms]
  by (auto intro!: map_idI)

lemma parse_dates_idem: "parse_dates pd (parse_dates pd c) = parse_dates pd c"
  by (cases c) (auto simp: parse_dates_def)

lemma to_numeric_idem: "to_numeric pd (to_numeric pd c) = to_numeric pd c"
  by (cases c) (auto simp: to_numeric_def)

lemma parse_dates_to_numeric: "parse_dates pd (to_numeric pd c) = to_numeric pd c"
  by (cases c) (auto simp: to_numeric_def parse_dates_def)

lemma unique_name_cong: "map fst df = map fst df' \<Longrightarrow> unique_name df col = unique_name df' col"
  by (simp add: unique_name_def)

lemma date_loop_result:
  "date_loop pd cols df = Inr df' \<Longrightarrow>
   df' = map (\<lambda>(n, c). if n \<in> set cols \<and> contains ''date'' (lower n) then (n, parse_dates pd c) else (n, c)) df"
proof (induction cols arbitrary: df)
  case Nil
  then show ?case by (simp add: case_prod_unfold)
next
  case (Cons col cols)
  show ?case
  proof (cases "contains ''date'' (lower col)")
    case False
    with Cons.prems have "date_loop pd cols df = Inr df'" by simp
    from Cons.IH[OF this] False show ?thesis by (auto intro!: map_cong)
  next
    case True
    with Cons.prems obtain c where g: "getitem df col = Inr (Series c)"
      by (auto split: sum.splits selection.splits)
    let ?df1 = "setitem df col (parse_dates pd c)"
    from Cons.prems True g have "date_loop pd cols ?df1 = Inr df'"
      by (cases c) (auto simp: parse_dates_def setitem_same)
    from Cons.IH[OF this] have "df' = map (\<lambda>(n, c). if n \<in> set cols \<and> contains ''date'' (lower n) then (n, parse_dates pd c) else (n, c)) ?df1" .
    also have "?df1 = map (\<lambda>(n, c'). if n = col then (n, parse_dates pd c') else (n, c')) df"
      by (rule setitem_as_map[OF g])
    finally show ?thesis using True by (auto simp: parse_dates_idem intro!: map_cong)
  qed
qed

lemma numeric_loop_result:
  "numeric_loop pd cols df = Inr df' \<Longrightarrow>
   df' = map (\<lambda>(n, c). if n \<in> set cols \<and> (contains ''price'' (lower n) \<or> contains ''amount'' (lower n)) then (n, to_numeric pd c) else (n, c)) df"
proof (induction cols arbitrary: df)
  case Nil
  then show ?case by (simp add: case_prod_unfold)
next
  case (Cons col cols)
  show ?case
  proof (cases "contains ''price'' (lower col) \<or> contains ''amount'' (lower col)")
    case False
    with Cons.prems have "numeric_loop pd cols df = Inr df'" by simp
    from Cons.IH[OF this] False show ?thesis by (auto intro!: map_cong)
  next
    case True
    with Cons.prems obtain c where g: "getitem df col = Inr (Series c)"
      by (auto split: sum.splits selection.splits)
    let ?df1 = "setitem df col (to_numeric pd c)"
    from Cons.prems True g have "numeric_loop pd cols ?df1 = Inr df'"
      by auto
    from Cons.IH[OF this] have "df' = map (\<lambda>(n, c). if n \<in> set cols \<and> (contains ''price'' (lower n) \<or> contains ''amount'' (lower n)) then (n, to_numeric pd c) else (n, c)) ?df1" .
    also have "?df1 = map (\<lambda>(n, c'). if n = col then (n, to_numeric pd c') else (n, c')) df"
      by (rule setitem_as_map[OF g])
    finally show ?thesis using True by (auto simp: to_numeric_idem intro!: map_cong)
  qed
qed

lemma date_loop_ok_iff:
  "(\<exists>df'. date_loop pd cols df = Inr df') \<longleftrightarrow>
   (\<forall>col \<in> set cols. contains ''date'' (lower col) \<longrightarrow> unique_name df col)"
proof (induction cols arbitrary: df)
  case Nil
  then show ?case by simp
next
  case (Cons col cols)
  show ?case
  proof (cases "contains ''date'' (lower col)")
    case False
    then show ?thesis using Cons.IH[of df] by simp
  next
    case True
    show ?thesis
    proof (cases "unique_name df col")
      case u: True
      then obtain c where g: "getitem df col = Inr (Series c)" using unique_getitem by blast
      have n: "\<And>x. unique_name (setitem df col x) = unique_name df"
        by (rule ext) (simp add: unique_name_def setitem_names)
      show ?thesis using True u g Cons.IH[of df] Cons.IH[of "setitem df col (DatetimeCol (to_datetime_coerce pd vs))" for vs]
        by (cases c) (simp_all add: n)
    next
      case nu: False
      then have "\<not> (\<exists>c. getitem df col = Inr (Series c))" using getitem_Series_unique by blast
      then have "\<not> (\<exists>df'. date_loop pd (col # cols) df = Inr df')" using True
        by (auto split: sum.splits selection.splits column.splits)
      then show ?thesis using nu True by auto
    qed
  qed
qed

lemma numeric_loop_ok_iff:
  "(\<exists>df'. numeric_loop pd cols df = Inr df') \<longleftrightarrow>
   (\<forall>col \<in> set cols. contains ''price'' (lower col) \<or> contains ''amount'' (lower col) \<longrightarrow> unique_name df col)"
proof (induction cols arbitrary: df)
  case Nil
  then show ?case by simp
next
  case (Cons col cols)
  show ?case
  proof (cases "contains ''price'' (lower col) \<or> contains ''amount'' (lower col)")
    case False
    then show ?thesis using Cons.IH[of df] by simp
  next
    case True
    show ?thesis
    proof (cases "unique_name df col")
      case u: True
      then obtain c where g: "getitem df col = Inr (Series c)" using unique_getitem by blast
      have n: "\<And>x. unique_name (setitem df col x) = unique_name df"
        by (rule ext) (simp add: unique_name_def setitem_names)
      show ?thesis using True u g Cons.IH[of "setitem df col (to_numeric pd c)"]
        by (simp add: n)
    next
      case nu: False
      then have "\<not> (\<exists>c. getitem df col = Inr (Series c))" using getitem_Series_unique by blast
      then have "\<not> (\<exists>df'. numeric_loop pd (col # cols) df = Inr df')" using True
        by (auto split: sum.splits selection.splits column.splits)
      then show ?thesis using nu True by auto
    qed
  qed
qed

lemma preprocess_result:
  assumes "preprocess_data pd df = Inr df'"
  shows "df' = map (\<lambda>(n, c). (strip n,
            (if contains ''price'' (lower (strip n)) \<or> contains ''amount'' (lower (strip n))
             then to_numeric pd else id)
            ((if contains ''date'' (lower (strip n)) then parse_dates pd else id) c))) df"
proof -
  let ?df = "map (\<lambda>(c, v). (strip c, v)) df"
  from assms obtain df1 where d: "date_loop pd (map fst ?df) ?df = Inr df1"
    and n: "numeric_loop pd (map fst df1) df1 = Inr df'"
    by (auto simp: preprocess_data_def Let_def split: sum.splits)
  have 1: "df1 = map (\<lambda>(n, c). if contains ''date'' (lower n) then (n, parse_dates pd c) else (n, c)) ?df"
    unfolding date_loop_result[OF d] by (rule map_cong) force+
  have 2: "df' = map (\<lambda>(n, c). if contains ''price'' (lower n) \<or> contains ''amount'' (lower n) then (n, to_numeric pd c) else (n, c)) df1"
    unfolding numeric_loop_result[OF n] by (rule map_cong) force+
  show ?thesis unfolding 2 1 by (auto simp: case_prod_unfold)
qed

lemma preprocess_ok_iff:
  "(\<exists>df'. preprocess_data pd df = Inr df') \<longleftrightarrow>
   (\<forall>col \<in> set (map (strip \<circ> fst) df).
      contains ''date'' (lower col) \<or> contains ''price'' (lower col) \<or> contains ''amount'' (lower col)
      \<longrightarrow> length (filter (\<lambda>n. n = col) (map (strip \<circ> fst) df)) = 1)"
proof -
  let ?df = "map (\<lambda>(c, v). (strip c, v)) df"
  have names: "map fst ?df = map (strip \<circ> fst) df" by (simp add: case_prod_unfold comp_def)
  have 1: "(\<exists>df1. date_loop pd (map fst ?df) ?df = Inr df1) \<longleftrightarrow>
     (\<forall>col \<in> set (map (strip \<circ> fst) df). contains ''date'' (lower col)
        \<longrightarrow> length (filter (\<lambda>n. n = col) (map (strip \<circ> fst) df)) = 1)"
    unfolding date_loop_ok_iff unique_name_def names ..
  have 2: "(\<exists>df'. numeric_loop pd (map fst df1) df1 = Inr df') \<longleftrightarrow>
     (\<forall>col \<in> set (map (strip \<circ> fst) df). contains ''price'' (lower col) \<or> contains ''amount'' (lower col)
        \<longrightarrow> length (filter (\<lambda>n. n = col) (map (strip \<circ> fst) df)) = 1)"
    if "date_loop pd (map fst ?df) ?df = Inr df1" for df1
  proof -
    have "map fst df1 = map (strip \<circ> fst) df"
      unfolding date_loop_result[OF that] by (simp add: case_prod_unfold comp_def)
    then show ?thesis unfolding numeric_loop_ok_iff unique_name_def by simp
  qed
  show ?thesis
  proof
    assume "\<exists>df'. preprocess_data pd df = Inr df'"
    then obtain df' df1 where d: "date_loop pd (map fst ?df) ?df = Inr df1"
      and n: "numeric_loop pd (map fst df1) df1 = Inr df'"
      by (auto simp: preprocess_data_def Let_def split: sum.splits)
    from d 1 n 2[OF d] show "\<forall>col \<in> set (map (strip \<circ> fst) df).
      contains ''date'' (lower col) \<or> contains ''price'' (lower col) \<or> contains ''amount'' (lower col)
      \<longrightarrow> length (filter (\<lambda>n. n = col) (map (strip \<circ> fst) df)) = 1" by blast
  next
    assume a: "\<forall>col \<in> set (map (strip \<circ> fst) df).
      contains ''date'' (lower col) \<or> contains ''price'' (lower col) \<or> contains ''amount'' (lower col)
      \<longrightarrow> length (filter (\<lambda>n. n = col) (map (strip \<circ> fst) df)) = 1"
    with 1 obtain df1 where d: "date_loop pd (map fst ?df) ?df = Inr df1" by blast
    from a 2[OF d] obtain df' where "numeric_loop pd (map fst df1) df1 = Inr df'" by blast
    with d show "\<exists>df'. preprocess_data pd df = Inr df'"
      by (auto simp: preprocess_data_def Let_def)
  qed
qed

text \<open>
  C3. \<^const>\<open>preprocess_data\<close> is idempotent: whenever it returns a table, applying it to
  that table returns the same table (same column names, same dtypes, same cells).
\<close>

theorem preprocess_data_idempotent:
  assumes "preprocess_data pd df = Inr df'"
  shows "preprocess_data pd df' = Inr df'"
proof -
  note r = preprocess_result[OF assms]
  have names: "map (strip \<circ> fst) df' = map (strip \<circ> fst) df"
    unfolding r by (simp add: case_prod_unfold comp_def strip_idem)
  from assms have "\<exists>d. preprocess_data pd df = Inr d" by blast
  then have "\<exists>d. preprocess_data pd df' = Inr d"
    unfolding preprocess_ok_iff names .
  then obtain d where d: "preprocess_data pd df' = Inr d" by blast
  have "d = df'"
    unfolding preprocess_result[OF d] unfolding r
    by (auto simp: case_prod_unfold strip_idem to_numeric_idem parse_dates_idem parse_dates_to_numeric)
  with d show ?thesis by simp
qed

theorem preprocess_data_idempotent_witness:
  "preprocess_data
     \<lparr>to_datetime_coerce = map (\<lambda>v. case v of OTime t \<Rightarrow> Some t | _ \<Rightarrow> None),
      to_numeric_coerce = map (\<lambda>v. case v of ONum x \<Rightarrow> Some x | _ \<Rightarrow> None)\<rparr>
     [('' purchase_date '', ObjectCol [OTime 1000, OStr ''n/a'']),
      (''Price'', ObjectCol [ONum 3, OStr ''free'']),
      (''vendor_name'', ObjectCol [OStr ''A'', OStr ''B''])]
   = Inr [(''purchase_date'', DatetimeCol [Some 1000, None]),
          (''Price'', NumericCol [Some 3, None]),
          (''vendor_name'', ObjectCol [OStr ''A'', OStr ''B''])]
   \<and> preprocess_data
     \<lparr>to_datetime_coerce = map (\<lambda>v. case v of OTime t \<Rightarrow> Some t | _ \<Rightarrow> None),
      to_numeric_coerce = map (\<lambda>v. case v of ONum x \<Rightarrow> Some x | _ \<Rightarrow> None)\<rparr>
     [(''purchase_date'', DatetimeCol [Some 1000, None]),
      (''Price'', NumericCol [Some 3, None]),
      (''vendor_name'', ObjectCol [OStr ''A'', OStr ''B''])]
   = Inr [(''purchase_date'', DatetimeCol [Some 1000, None]),
          (''Price'', NumericCol [Some 3, None]),
          (''vendor_name'', ObjectCol [OStr ''A'', OStr ''B''])]"
proof -
  have h: "preprocess_data
     \<lparr>to_datetime_coerce = map (\<lambda>v. case v of OTime t \<Rightarrow> Some t | _ \<Rightarrow> None),
      to_numeric_coerce = map (\<lambda>v. case v of ONum x \<Rightarrow> Some x | _ \<Rightarrow> None)\<rparr>
     [('' purchase_date '', ObjectCol [OTime 1000, OStr ''n/a'']),
      (''Price'', ObjectCol [ONum 3, OStr ''free'']),
      (''vendor_name'', ObjectCol [OStr ''A'', OStr ''B''])]
   = Inr [(''purchase_date'', DatetimeCol [Some 1000, None]),
          (''Price'', NumericCol [Some 3, None]),
          (''vendor_name'', ObjectCol [OStr ''A'', OStr ''B''])]"
    by (simp add: preprocess_data_def strip_def isspace_def contains_def lower_def lower_char_def
        sublist_code prefix_code getitem_def setitem_def to_numeric_def)
  from h preprocess_data_idempotent[OF h] show ?thesis by (rule conjI)
qed




subsection \<open>The loader\<close>










subsection \<open>The enricher\<close>

lemma merge_left_fst:
  "map fst (merge_left lkey rkey left right) =
   concat (map (\<lambda>l. replicate (max 1 (length (filter (\<lambda>m. lkey l = Some (rkey m)) right))) l) left)"
proof -
  have "map fst (case filter (\<lambda>m. lkey l = Some (rkey m)) right of
                         [] \<Rightarrow> [(l, None)]
                       | ms \<Rightarrow> map (\<lambda>m. (l, Some m)) ms)
        = replicate (max 1 (length (filter (\<lambda>m. lkey l = Some (rkey m)) right))) l" for l
    by (cases "filter (\<lambda>m. lkey l = Some (rkey m)) right")
       (auto simp: comp_def map_replicate_const)
  then show ?thesis
    by (simp add: merge_left_def map_concat comp_def)
qed

lemma filter_key_le1:
  assumes "distinct (map rkey right)"
  shows "length (filter (\<lambda>m. k = rkey m) right) \<le> 1"
proof -
  have "filter (\<lambda>m. k = rkey m) right = filter (\<lambda>m. rkey m = k) right"
    by (rule filter_cong) auto
  moreover have "length (filter (\<lambda>m. rkey m = k) right) = length (filter (\<lambda>x. x = k) (map rkey right))"
    by (simp add: filter_map comp_def)
  moreover have "length (filter (\<lambda>x. x = k) (map rkey right)) \<le> 1"
    using assms distinct_length_filter[of "map rkey right" "\<lambda>x. x = k"]
    by (simp add: card_le_Suc0_iff_eq)  
  ultimately show ?thesis by simp
qed

lemma merge_left_fst_distinct:
  assumes "distinct (map rkey right)"
  shows "map fst (merge_left lkey rkey left right) = left"
proof -
  have "max 1 (length (filter (\<lambda>m. lkey l = Some (rkey m)) right)) = 1" for l
  proof (cases "lkey l")
    case None
    then show ?thesis by simp
  next
    case (Some k)
    then show ?thesis using filter_key_le1[OF assms, of k] by (simp add: max_def)
  qed
  then show ?thesis unfolding merge_left_fst by (induction left) simp_all
qed

lemma distinct_group_keys: "distinct (group_keys key rs)"
  by (simp add: group_keys_def)

lemma set_dropna: "set (dropna xs) = {x. Some x \<in> set xs}"
  by (induction xs rule: dropna.induct) auto

lemma set_group_keys: "set (group_keys key rs) = {k. \<exists>r \<in> set rs. key r = Some k}"
  by (auto simp: group_keys_def set_dropna image_iff) metis


text \<open>Every merge keeps the cells of the row it extends.\<close>

lemma merge_customer_fst:
  "map (\<lambda>r. (base r, Hour r, DayOfWeek r, TimePeriod r, Profit r, ProfitMargin r)) (merge_customer rs cts) =
   map (\<lambda>r. (base r, Hour r, DayOfWeek r, TimePeriod r, Profit r, ProfitMargin r)) (map fst (merge_left customer ct_customer_guid rs cts))"
  by (simp add: merge_customer_def case_prod_unfold comp_def)

lemma merge_vendor_fst:
  "map (\<lambda>r. (base r, Hour r, DayOfWeek r, TimePeriod r, Profit r, ProfitMargin r)) (merge_vendor rs sts) =
   map (\<lambda>r. (base r, Hour r, DayOfWeek r, TimePeriod r, Profit r, ProfitMargin r)) (map fst (merge_left vendor vs_vendor_name rs sts))"
  by (simp add: merge_vendor_def case_prod_unfold comp_def)

lemma merge_location_fst:
  "map (\<lambda>r. (base r, Hour r, DayOfWeek r, TimePeriod r, Profit r, ProfitMargin r)) (merge_location rs sts) =
   map (\<lambda>r. (base r, Hour r, DayOfWeek r, TimePeriod r, Profit r, ProfitMargin r)) (map fst (merge_left location ls_purchase_location rs sts))"
  by (simp add: merge_location_def case_prod_unfold comp_def)

lemma merge_product_fst:
  "map (\<lambda>r. (base r, Hour r, DayOfWeek r, TimePeriod r, Profit r, ProfitMargin r)) (merge_product rs sts) =
   map (\<lambda>r. (base r, Hour r, DayOfWeek r, TimePeriod r, Profit r, ProfitMargin r)) (map fst (merge_left product ps_product_name rs sts))"
  by (simp add: merge_product_def case_prod_unfold comp_def)

lemma customer_totals_keys: "map ct_customer_guid (customer_totals_of rs) = group_keys customer rs"
  by (simp add: customer_totals_of_def Let_def comp_def case_prod_unfold)

lemma vendor_stats_keys: "map vs_vendor_name (vendor_stats_of rs) = group_keys vendor rs"
  by (simp add: vendor_stats_of_def Let_def comp_def case_prod_unfold)

lemma location_stats_keys: "map ls_purchase_location (location_stats_of rs) = group_keys location rs"
  by (simp add: location_stats_of_def Let_def comp_def case_prod_unfold)

lemma product_stats_keys:
  "map (\<lambda>m. (ps_product_name m, ps_vendor_name m)) (product_stats_of rs) = group_keys product_vendor rs"
  by (simp add: product_stats_of_def Let_def comp_def case_prod_unfold)

lemma product_vendor_Some:
  "product_vendor r = Some (p, v) \<longleftrightarrow> product r = Some p \<and> vendor r = Some v"
  by (auto simp: product_vendor_def split: option.splits)

lemma product_stats_count:
  "length (filter (\<lambda>m. Some p = Some (ps_product_name m)) (product_stats_of rs))
   = length (product_vendors (map base rs) p)"
proof -
  let ?keys = "group_keys product_vendor rs"
  have "length (filter (\<lambda>m. Some p = Some (ps_product_name m)) (product_stats_of rs))
      = length (filter (\<lambda>k. fst k = p) (map (\<lambda>m. (ps_product_name m, ps_vendor_name m)) (product_stats_of rs)))"
    by (simp add: filter_map comp_def eq_commute)
  also have "\<dots> = length (filter (\<lambda>k. fst k = p) ?keys)"
    by (simp only: product_stats_keys)
  also have "\<dots> = card (set (filter (\<lambda>k. fst k = p) ?keys))"
    by (rule distinct_card[symmetric]) (simp add: distinct_group_keys)
  also have "set (filter (\<lambda>k. fst k = p) ?keys)
      = (\<lambda>v. (p, v)) ` set (product_vendors (map base rs) p)"
  proof -
    have "set (filter (\<lambda>k. fst k = p) ?keys) = {(p, v) | v. \<exists>r \<in> set rs. product r = Some p \<and> vendor r = Some v}"
      by (auto simp: set_group_keys product_vendor_Some)
    moreover have "set (product_vendors (map base rs) p) = {v. \<exists>r \<in> set rs. product r = Some p \<and> vendor r = Some v}"
      by (auto simp: product_vendors_def set_dropna image_iff) 
    ultimately show ?thesis by auto
  qed
  also have "card \<dots> = card (set (product_vendors (map base rs) p))"
    by (rule card_image) (simp add: inj_on_def)
  also have "\<dots> = length (product_vendors (map base rs) p)"
    by (rule distinct_card) (simp add: product_vendors_def)
  finally show ?thesis .
qed

lemma map_core_cong:
  assumes "map core xs = map core ys"
  shows "map base xs = map base ys"
proof -
  have "map base xs = map fst (map core xs)" by (simp add: comp_def)
  also have "\<dots> = map fst (map core ys)" by (simp only: assms)
  finally show ?thesis by (simp add: comp_def)
qed

lemma base_financial: "base (financial hc (time_columns r)) = r"
  by (simp add: financial_def time_columns_def)

lemma enhance_purchases_rows:
  assumes "enhance_purchases df = Inr (pe, vs, ct)"
  shows "map core (rows pe) =
     concat (map (\<lambda>r. replicate (copies (rows df) r)
                          (core (financial (''unit_cost'' \<in> set (columns df)) (time_columns r))))
                 (rows df))"
proof -
  define hc where "hc = (''unit_cost'' \<in> set (columns df))"
  define r2 where "r2 = map (financial hc) (map time_columns (rows df))"
  define r3 where "r3 = merge_customer r2 (customer_totals_of r2)"
  define r4 where "r4 = merge_vendor r3 (vendor_stats_of r3)"
  define r5 where "r5 = (if ''purchase_location'' \<in> set (columns df)
                         then merge_location r4 (location_stats_of r4) else r4)"
  define r6 where "r6 = merge_product r5 (product_stats_of r5)"
  from assms have pe: "rows pe = r6"
    by (auto simp: enhance_purchases_def Let_def r6_def r5_def r4_def r3_def r2_def hc_def
        split: sum.splits)
  have c3: "map core r3 = map core r2"
    unfolding r3_def merge_customer_fst
    by (simp only: merge_left_fst_distinct customer_totals_keys distinct_group_keys)
  have c4: "map core r4 = map core r3"
    unfolding r4_def merge_vendor_fst
    by (simp only: merge_left_fst_distinct vendor_stats_keys distinct_group_keys)
  have c5: "map core r5 = map core r4"
  proof (cases "''purchase_location'' \<in> set (columns df)")
    case True
    then have "r5 = merge_location r4 (location_stats_of r4)" by (simp add: r5_def)
    then show ?thesis
      unfolding merge_location_fst
      by (simp only: merge_left_fst_distinct location_stats_keys distinct_group_keys merge_location_fst)
  next
    case False
    then show ?thesis by (simp add: r5_def)
  qed
  have c52: "map core r5 = map core r2" using c3 c4 c5 by simp
  have b2: "map base r2 = rows df"
    by (simp add: r2_def comp_def base_financial)
  have b5: "map base r5 = rows df" using map_core_cong[OF c52] b2 by simp
  have n: "max 1 (length (filter (\<lambda>m. product l = Some (ps_product_name m)) (product_stats_of r5)))
         = copies (rows df) (base l)" for l
  proof (cases "product l")
    case None
    then show ?thesis by (simp add: copies_def)
  next
    case (Some p)
    then show ?thesis using product_stats_count[of p r5] by (simp add: copies_def b5)
  qed
  have "map core r6 = concat (map (\<lambda>l. replicate (copies (rows df) (base l)) (core l)) r5)"
  proof -
    have n': "max (Suc 0) (length (filter (\<lambda>m. product l = Some (ps_product_name m)) (product_stats_of r5)))
         = copies (rows df) (base l)" for l
      using n[of l] by simp
    show ?thesis
      unfolding r6_def merge_product_fst merge_left_fst
      by (simp add: map_concat comp_def n')
  qed
  also have "\<dots> = concat (map (\<lambda>c. replicate (copies (rows df) (fst c)) c) (map core r5))"
    by (simp add: comp_def)
  also have "\<dots> = concat (map (\<lambda>c. replicate (copies (rows df) (fst c)) c) (map core r2))"
    by (simp only: c52)
  also have "\<dots> = concat (map (\<lambda>r. replicate (copies (rows df) r)
                          (core (financial hc (time_columns r)))) (rows df))"
    by (simp add: r2_def comp_def base_financial)
  finally show ?thesis by (simp add: pe hc_def)
qed

lemma require_ok: "require names cols = Inr () \<longleftrightarrow> set names \<subseteq> set cols"
proof -
  have "filter (\<lambda>n. n \<notin> set cols) names = [] \<longleftrightarrow> set names \<subseteq> set cols"
    by (auto simp: filter_empty_conv)
  then show ?thesis by (auto simp: require_def split: list.splits)
qed

lemma require_cases: "(\<exists>n. require names cols = Inl (KeyError n)) \<or> require names cols = Inr ()"
  by (auto simp: require_def split: list.splits)

lemma assign_mono: "set cols \<subseteq> set (assign n cols)"
  by (auto simp: assign_def)

lemma assign_mem: "n \<in> set (assign n cols)"
  by (auto simp: assign_def)

lemma foldl_assign_set: "set (foldl (\<lambda>cs n. assign n cs) cols names) = set cols \<union> set names"
  by (induction names arbitrary: cols) (auto simp: assign_def)

lemma enhance_purchases_ok:
  "(\<exists>x. enhance_purchases df = Inr x) \<longleftrightarrow>
   {''purchase_date'', ''customer_guid'', ''purchase_price_w_discount'', ''vendor_name'',
    ''product_name'', ''quantity''} \<subseteq> set (columns df)"
proof -
  let ?names = "[''purchase_date'']
                       @ (if ''unit_cost'' \<in> set (columns df) then [''purchase_price_w_discount''] else [])
                       @ [''customer_guid'', ''purchase_price_w_discount'', ''vendor_name'',
                          ''product_name'', ''quantity'']"
  have "(\<exists>x. enhance_purchases df = Inr x) \<longleftrightarrow> require ?names (columns df) = Inr ()"
    using require_cases[of ?names "columns df"]
    by (auto simp: enhance_purchases_def Let_def split: sum.splits)
  then show ?thesis unfolding require_ok by auto
qed

lemma enhance_purchases_columns:
  assumes "enhance_purchases df = Inr (pe, vs, ct)"
  shows "set (columns df) \<union> {''Hour'', ''DayOfWeek'', ''TimePeriod'', ''Profit'', ''ProfitMargin''}
           \<subseteq> set (columns pe)"
    and "''purchase_location'' \<in> set (columns pe) \<longleftrightarrow> ''purchase_location'' \<in> set (columns df)"
  using assms
  by (auto simp: enhance_purchases_def Let_def foldl_assign_set simp del: foldl_Cons split: sum.splits)

lemma create_enhanced_datasets_Inr:
  "create_enhanced_datasets df ck = Inr (pe, ce, vs, ct) \<longleftrightarrow>
   enhance_purchases df = Inr (pe, vs, ct) \<and> enhance_checkins ck = Inr ce"
  by (auto simp: create_enhanced_datasets_def split: sum.splits)

lemma enhance_checkins_empty: "empty ck \<Longrightarrow> enhance_checkins ck = Inr DataFrame"
  by (simp add: enhance_checkins_def)

lemma sum_list_copies_gt:
  fixes f :: "'a \<Rightarrow> nat"
  assumes "\<forall>x \<in> set xs. 1 \<le> f x" "\<exists>x \<in> set xs. 1 < f x"
  shows "length xs < sum_list (map f xs)"
proof -
  have le: "length ys \<le> sum_list (map f ys)" if "\<forall>x \<in> set ys. 1 \<le> f x" for ys
    using that by (induction ys) (auto simp: Suc_le_eq intro: add_le_mono)
  from assms(2) obtain x where x: "x \<in> set xs" "1 < f x" by blast
  then obtain as bs where s: "xs = as @ x # bs" by (meson split_list)
  have "length as \<le> sum_list (map f as)" "length bs \<le> sum_list (map f bs)"
    using le assms(1) s by auto
  with x show ?thesis unfolding s by simp
qed

lemma copies_ge1: "1 \<le> copies rs r"
  by (simp add: copies_def split: option.splits)

lemma set_concat_replicate:
  assumes "\<And>x. 1 \<le> n x"
  shows "set (concat (map (\<lambda>x. replicate (n x) (g x)) xs)) = g ` set xs"
proof -
  have "set (replicate (n x) (g x)) = {g x}" for x
    using assms[of x] by (cases "n x") auto
  then show ?thesis by auto
qed

lemma Profit_financial:
  "Profit (financial hc (time_columns r)) =
     (if hc then nan_minus (purchase_price_w_discount r) (unit_cost r) else Some 0)"
  by (simp add: financial_def time_columns_def)

lemma ProfitMargin_financial:
  "ProfitMargin (financial hc (time_columns r)) =
     (if hc then (case purchase_price_w_discount r of
               Some p \<Rightarrow> if p > 0 then nan_percent (nan_minus (purchase_price_w_discount r) (unit_cost r)) (purchase_price_w_discount r)
                         else Some 0
             | None \<Rightarrow> Some 0) else Some 0)"
  by (simp add: financial_def time_columns_def split: option.splits)

text \<open>
  C10. Enrichment keeps the number of rows only conditionally. The enhanced purchases
  table holds every input row, in order, once for each distinct vendor under which its
  product name occurs in the table (and once when there is none, or no product name).
  So when every product name occurs under at most one vendor the enhanced table has
  exactly one row for each input row, and when some row's product name occurs under
  more than one vendor the enhanced table has more rows than the input.
\<close>

theorem enriched_row_count:
  assumes "create_enhanced_datasets df checkins_df = Inr (pe, ce, vs, ct)"
  shows "map base (rows pe) = concat (map (\<lambda>r. replicate (copies (rows df) r) r) (rows df))
       \<and> length (rows pe) = sum_list (map (copies (rows df)) (rows df))
       \<and> ((\<forall>p. length (product_vendors (rows df) p) \<le> 1) \<longrightarrow> length (rows pe) = length (rows df))
       \<and> ((\<exists>r \<in> set (rows df). \<exists>p. product_name r = Some p \<and> 1 < length (product_vendors (rows df) p))
            \<longrightarrow> length (rows df) < length (rows pe))"
proof -
  from assms have e: "enhance_purchases df = Inr (pe, vs, ct)"
    by (simp add: create_enhanced_datasets_Inr)
  have "map base (rows pe) = map fst (map core (rows pe))" by (simp add: comp_def)
  also have "\<dots> = concat (map (\<lambda>r. replicate (copies (rows df) r) r) (rows df))"
    unfolding enhance_purchases_rows[OF e] by (simp add: map_concat comp_def base_financial)
  finally have b: "map base (rows pe) = concat (map (\<lambda>r. replicate (copies (rows df) r) r) (rows df))" .
  have "length (rows pe) = length (map base (rows pe))" by simp
  also have "\<dots> = sum_list (map (copies (rows df)) (rows df))"
    unfolding b by (simp add: length_concat comp_def)
  finally have l: "length (rows pe) = sum_list (map (copies (rows df)) (rows df))" .
  have c1: "length (rows pe) = length (rows df)" if "\<forall>p. length (product_vendors (rows df) p) \<le> 1"
  proof -
    have c: "copies (rows df) r = 1" for r
      using that by (auto simp: copies_def max_def le_antisym split: option.splits)
    have "sum_list (map (copies (rows df)) xs) = length xs" for xs
      by (induction xs) (simp_all add: c)
    then show ?thesis unfolding l .
  qed
  have c2: "length (rows df) < length (rows pe)"
    if "\<exists>r \<in> set (rows df). \<exists>p. product_name r = Some p \<and> 1 < length (product_vendors (rows df) p)"
  proof -
    from that obtain r p where r: "r \<in> set (rows df)" "product_name r = Some p"
        "1 < length (product_vendors (rows df) p)" by blast
    then have "1 < copies (rows df) r" by (simp add: copies_def)
    with r(1) have "\<exists>r \<in> set (rows df). 1 < copies (rows df) r" by blast
    then show ?thesis unfolding l using sum_list_copies_gt[of "rows df" "copies (rows df)"] copies_ge1 by blast
  qed
  from b l c1 c2 show ?thesis by blast
qed

theorem enriched_row_count_witness:
  "(\<exists>pe ce vs ct. create_enhanced_datasets purchases_shared_product DataFrame = Inr (pe, ce, vs, ct)
       \<and> length (rows pe) = 4)
   \<and> length (rows purchases_shared_product) = 2
   \<and> length (product_vendors (rows purchases_shared_product) ''bar'') = 2
   \<and> (\<exists>pe ce vs ct. create_enhanced_datasets purchases_without_cost DataFrame = Inr (pe, ce, vs, ct)
       \<and> length (rows pe) = 3)
   \<and> length (rows purchases_without_cost) = 3"
proof -
  obtain x where "enhance_purchases purchases_shared_product = Inr x"
    using enhance_purchases_ok[of purchases_shared_product]
    by (auto simp: purchases_shared_product_def base_columns_def)
  then obtain pe ce vs ct where
    h: "create_enhanced_datasets purchases_shared_product DataFrame = Inr (pe, ce, vs, ct)"
    by (cases x) (auto simp: create_enhanced_datasets_Inr enhance_checkins_empty empty_def DataFrame_def)
  have "sum_list (map (copies (rows purchases_shared_product)) (rows purchases_shared_product)) = 4"
    by code_simp
  with enriched_row_count[OF h] have 1: "length (rows pe) = 4" by simp
  obtain y where "enhance_purchases purchases_without_cost = Inr y"
    using enhance_purchases_ok[of purchases_without_cost]
    by (auto simp: purchases_without_cost_def base_columns_def)
  then obtain pe' ce' vs' ct' where
    h': "create_enhanced_datasets purchases_without_cost DataFrame = Inr (pe', ce', vs', ct')"
    by (cases y) (auto simp: create_enhanced_datasets_Inr enhance_checkins_empty empty_def DataFrame_def)
  have "\<forall>p. length (product_vendors (rows purchases_without_cost) p) \<le> 1"
    by (simp add: purchases_without_cost_def three_rows_def product_vendors_def)
  with enriched_row_count[OF h'] have 2: "length (rows pe') = length (rows purchases_without_cost)"
    by blast
  have 3: "length (rows purchases_without_cost) = 3"
    by (simp add: purchases_without_cost_def three_rows_def)
  have 4: "length (rows purchases_shared_product) = 2"
    by (simp add: purchases_shared_product_def)
  have 5: "length (product_vendors (rows purchases_shared_product) ''bar'') = 2"
    by code_simp
  from h 1 h' 2 3 4 5 show ?thesis by auto
qed

text \<open>
  C1. In the table returned by \<^const>\<open>create_enhanced_datasets\<close> the columns \<^verbatim>\<open>Profit\<close> and
  \<^verbatim>\<open>ProfitMargin\<close> are always present and every input row is there. When the input has a
  \<^verbatim>\<open>unit_cost\<close> column, in every row Profit is the adjusted price minus the unit cost (NaN
  when either is), and ProfitMargin is 100 times Profit over the adjusted price when the
  price is greater than 0, and 0 otherwise; when the input has no \<^verbatim>\<open>unit_cost\<close> column both
  are 0 in every row.
\<close>

theorem profit_columns:
  assumes "create_enhanced_datasets df checkins_df = Inr (pe, ce, vs, ct)"
  shows "''Profit'' \<in> set (columns pe) \<and> ''ProfitMargin'' \<in> set (columns pe)
     \<and> base ` set (rows pe) = set (rows df)
     \<and> (\<forall>r \<in> set (rows pe).
          if ''unit_cost'' \<in> set (columns df)
          then (case (price r, unit_cost (base r)) of
                  (Some p, Some c) \<Rightarrow> Profit r = Some (p - c)
                | _ \<Rightarrow> Profit r = None)
             \<and> (case price r of
                  Some p \<Rightarrow> if p > 0 then ProfitMargin r = map_option (\<lambda>x. 100 * x / p) (Profit r)
                            else ProfitMargin r = Some 0
                | None \<Rightarrow> ProfitMargin r = Some 0)
          else Profit r = Some 0 \<and> ProfitMargin r = Some 0)"
proof -
  from assms have e: "enhance_purchases df = Inr (pe, vs, ct)"
    by (simp add: create_enhanced_datasets_Inr)
  define hc where "hc = (''unit_cost'' \<in> set (columns df))"
  define f where "f = (\<lambda>r. financial hc (time_columns r))"
  have cols: "''Profit'' \<in> set (columns pe)" "''ProfitMargin'' \<in> set (columns pe)"
    using enhance_purchases_columns(1)[OF e] by auto
  have m: "map core (rows pe) = concat (map (\<lambda>r. replicate (copies (rows df) r) (core (f r))) (rows df))"
    unfolding f_def hc_def by (rule enhance_purchases_rows[OF e])
  have s: "core ` set (rows pe) = (\<lambda>r. core (f r)) ` set (rows df)"
  proof -
    have "core ` set (rows pe) = set (map core (rows pe))" by simp
    also have "\<dots> = (\<lambda>r. core (f r)) ` set (rows df)"
      unfolding m by (rule set_concat_replicate) (rule copies_ge1)
    finally show ?thesis .
  qed
  have bf: "base (f r) = r" for r by (simp add: f_def base_financial)
  have b: "base ` set (rows pe) = set (rows df)"
  proof -
    have "base ` set (rows pe) = fst ` core ` set (rows pe)" by (simp add: image_image)
    also have "\<dots> = set (rows df)" unfolding s by (simp add: image_image bf)
    finally show ?thesis .
  qed
  have r: "if hc
          then (case (price r, unit_cost (base r)) of
                  (Some p, Some c) \<Rightarrow> Profit r = Some (p - c)
                | _ \<Rightarrow> Profit r = None)
             \<and> (case price r of
                  Some p \<Rightarrow> if p > 0 then ProfitMargin r = map_option (\<lambda>x. 100 * x / p) (Profit r)
                            else ProfitMargin r = Some 0
                | None \<Rightarrow> ProfitMargin r = Some 0)
          else Profit r = Some 0 \<and> ProfitMargin r = Some 0" if "r \<in> set (rows pe)" for r
  proof -
    from that have "core r \<in> core ` set (rows pe)" by (rule imageI)
    then obtain r0 where "core r = core (f r0)" unfolding s by blast
    then have 1: "base r = r0" and 2: "Profit r = Profit (f r0)" and 3: "ProfitMargin r = ProfitMargin (f r0)"
      by (simp_all add: bf)
    show ?thesis
      unfolding 2 3 unfolding f_def Profit_financial ProfitMargin_financial 1
      by (cases "purchase_price_w_discount r0"; cases "unit_cost r0")
         (simp_all add: nan_minus_def nan_percent_def)
  qed
  from cols b r show ?thesis unfolding hc_def by blast
qed

theorem profit_columns_witness:
  "(\<exists>pe ce vs ct. create_enhanced_datasets purchases_with_cost DataFrame = Inr (pe, ce, vs, ct)
      \<and> ''Profit'' \<in> set (columns pe) \<and> ''ProfitMargin'' \<in> set (columns pe)
      \<and> base ` set (rows pe) = set (rows purchases_with_cost))
   \<and> ''unit_cost'' \<in> set (columns purchases_with_cost)
   \<and> map_sum id (\<lambda>(pe, ce, vs, ct). map (\<lambda>r. (Profit r, ProfitMargin r)) (rows pe))
        (create_enhanced_datasets purchases_with_cost DataFrame)
      = Inr [(Some 6, Some 60), (Some 12, Some 60), (Some 0, Some 0)]
   \<and> map_sum id (\<lambda>(pe, ce, vs, ct). map (\<lambda>r. (Profit r, ProfitMargin r)) (rows pe))
        (create_enhanced_datasets purchases_without_cost DataFrame)
      = Inr [(Some 0, Some 0), (Some 0, Some 0), (Some 0, Some 0)]"
proof -
  obtain x where "enhance_purchases purchases_with_cost = Inr x"
    using enhance_purchases_ok[of purchases_with_cost]
    by (auto simp: purchases_with_cost_def base_columns_def)
  then obtain pe ce vs ct where
    h: "create_enhanced_datasets purchases_with_cost DataFrame = Inr (pe, ce, vs, ct)"
    by (cases x) (auto simp: create_enhanced_datasets_Inr enhance_checkins_empty empty_def DataFrame_def)
  from profit_columns[OF h] have 1: "''Profit'' \<in> set (columns pe) \<and> ''ProfitMargin'' \<in> set (columns pe)
      \<and> base ` set (rows pe) = set (rows purchases_with_cost)" by blast
  have 2: "''unit_cost'' \<in> set (columns purchases_with_cost)"
    by (simp add: purchases_with_cost_def)
  have 3: "map_sum id (\<lambda>(pe, ce, vs, ct). map (\<lambda>r. (Profit r, ProfitMargin r)) (rows pe))
        (create_enhanced_datasets purchases_with_cost DataFrame)
      = Inr [(Some 6, Some 60), (Some 12, Some 60), (Some 0, Some 0)]"
    by code_simp
  have 4: "map_sum id (\<lambda>(pe, ce, vs, ct). map (\<lambda>r. (Profit r, ProfitMargin r)) (rows pe))
        (create_enhanced_datasets purchases_without_cost DataFrame)
      = Inr [(Some 0, Some 0), (Some 0, Some 0), (Some 0, Some 0)]"
    by code_simp
  from h 1 2 3 4 show ?thesis by blast
qed

subsection \<open>The aggregator\<close>







subsection \<open>The exporter\<close>













subsection \<open>The totals of the vendor summary\<close>
















end
